theory Spec2Isabelle
  imports Complex_Main
begin

section \<open>Python values\<close>

text \<open>
  A Python \<open>str\<close> is modelled as a \<open>string\<close>, the list of its code points, restricted to
  the code points U+0000..U+00FF that a HOL \<open>char\<close> can hold. The values that
  \<open>json.loads\<close> produces, and the values a session state can hold, are the type \<open>pyval\<close>.
  A \<open>dict\<close> with \<open>str\<close> keys is an association list with at most one entry per key,
  read with \<open>map_of\<close>.
\<close>

datatype pyval =
    PNone
  | PBool bool
  | PInt int
  | PFloat rat
  | PStr string
  | PList "pyval list"
  | PDict "(string \<times> pyval) list"

text \<open>
  An exception object of class \<open>Exception\<close>, which is what \<open>except Exception\<close> catches:
  \<open>type(e).__name__\<close> and \<open>str(e)\<close>.
\<close>

datatype exception = Exception (exc_name: string) (exc_str: string)

fun type_name :: "pyval \<Rightarrow> string" where
  "type_name PNone = ''NoneType''"
| "type_name (PBool _) = ''bool''"
| "type_name (PInt _) = ''int''"
| "type_name (PFloat _) = ''float''"
| "type_name (PStr _) = ''str''"
| "type_name (PList _) = ''list''"
| "type_name (PDict _) = ''dict''"

definition AttributeError :: "pyval \<Rightarrow> string \<Rightarrow> exception" where
  "AttributeError v attr =
     Exception ''AttributeError''
       ([CHR 0x27] @ type_name v @ [CHR 0x27] @ '' object has no attribute ''
          @ [CHR 0x27] @ attr @ [CHR 0x27])"

text \<open>\<open>d.get(k, default)\<close> on a dict.\<close>

definition dict_get :: "(string \<times> pyval) list \<Rightarrow> string \<Rightarrow> pyval \<Rightarrow> pyval" where
  "dict_get d k dflt = (case map_of d k of None \<Rightarrow> dflt | Some v \<Rightarrow> v)"

text \<open>
  \<open>v.get(k, default)\<close> on an arbitrary value: of the values above only a dict has the
  method, every other value raises \<open>AttributeError\<close>.
\<close>

fun get_method :: "pyval \<Rightarrow> string \<Rightarrow> pyval \<Rightarrow> exception + pyval" where
  "get_method (PDict d) k dflt = Inr (dict_get d k dflt)"
| "get_method v k dflt = Inl (AttributeError v ''get'')"

fun isinstance_str :: "pyval \<Rightarrow> bool" where
  "isinstance_str (PStr _) = True"
| "isinstance_str _ = False"

section \<open>Logging\<close>

text \<open>
  A logger call \<open>logger.warning(fmt, *args)\<close> is recorded as the level, the format string
  and the arguments rendered with \<open>%s\<close>; the log is the list of the records, the oldest
  first.
\<close>

datatype level = Debug | Info | Warning

type_synonym log_entry = "level \<times> string \<times> string list"

section \<open>openrouter.py: the model cache\<close>

text \<open>
  \<open>_cache\<close> is \<open>None\<close> or the dict \<open>{"ids": ..., "models": ...}\<close>; its two entries are
  the fields of \<open>snapshot\<close>.
\<close>

record snapshot =
  ids :: "string set"
  models :: "pyval list"

text \<open>
  The module's globals \<open>_cache\<close> and \<open>_cache_updated_at\<close>, the log, and a counter of the
  calls of \<open>fetch_models\<close> (the counting stub of a test). \<open>time.monotonic()\<close> is a float
  of seconds, idealised as a real number.
\<close>

record world =
  cache :: "snapshot option"
  cache_updated_at :: real
  fetch_calls :: nat
  log :: "log_entry list"

definition initial_world :: world where
  "initial_world = \<lparr>cache = None, cache_updated_at = 0, fetch_calls = 0, log = []\<rparr>"

definition CACHE_TTL_SECONDS :: real where
  "CACHE_TTL_SECONDS = 60"

text \<open>
  What the surroundings answer during one call: the environment variable
  \<open>OPENROUTER_API_KEY\<close>; the outcome of \<open>urlopen\<close>, \<open>read\<close>, \<open>decode\<close> and
  \<open>json.loads\<close> together, either an exception (of class \<open>Exception\<close>) or the parsed
  JSON value; the clock \<open>time.monotonic()\<close> when the staleness is tested (\<open>now\<close>) and
  when \<open>_refresh_cache\<close> stamps the snapshot (\<open>stamp\<close>).
\<close>

datatype http_outcome = Raised exception | Parsed pyval

record env =
  api_key :: "string option"
  response :: http_outcome
  now :: real
  stamp :: real

definition emit :: "level \<Rightarrow> string \<Rightarrow> string list \<Rightarrow> world \<Rightarrow> world" where
  "emit l fmt args w = w\<lparr>log := log w @ [(l, fmt, args)]\<rparr>"

text \<open>
  A call returns a value or raises, and leaves the world as it is at that moment: an
  exception does not undo what was done before it.
\<close>

type_synonym 'a outcome = "(exception + 'a) \<times> world"

definition fetch_models :: "env \<Rightarrow> world \<Rightarrow> pyval list outcome" where
  "fetch_models e w0 =
     (let w = w0\<lparr>fetch_calls := Suc (fetch_calls w0)\<rparr> in
      case api_key e of
        None \<Rightarrow> (Inr [], emit Warning ''OPENROUTER_API_KEY not set; cannot fetch models'' [] w)
      | Some k \<Rightarrow>
          if k = [] then
            (Inr [], emit Warning ''OPENROUTER_API_KEY not set; cannot fetch models'' [] w)
          else
            (case response e of
               Raised x \<Rightarrow>
                 (Inr [],
                  emit Warning ''Failed to fetch OpenRouter models: %s: %s''
                    [exc_name x, exc_str x] w)
             | Parsed data \<Rightarrow>
                 (case get_method data ''data'' PNone of
                    Inl x \<Rightarrow> (Inl x, w)
                  | Inr raw_models \<Rightarrow>
                      (case raw_models of
                         PList ms \<Rightarrow> (Inr ms, w)
                       | _ \<Rightarrow> (Inr [], w)))))"

text \<open>
  The set comprehension \<open>{m.get("id") for m in models if isinstance(m.get("id"), str)}\<close>,
  as the list of its elements in the order of \<open>models\<close>; the first \<open>m\<close> without a
  \<open>get\<close> method raises.
\<close>

fun ids_of :: "pyval list \<Rightarrow> exception + string list" where
  "ids_of [] = Inr []"
| "ids_of (m # ms) =
     (case get_method m ''id'' PNone of
        Inl x \<Rightarrow> Inl x
      | Inr (PStr s) \<Rightarrow> (case ids_of ms of Inl x \<Rightarrow> Inl x | Inr r \<Rightarrow> Inr (s # r))
      | Inr _ \<Rightarrow> ids_of ms)"

text \<open>The dict literal of the list comprehension, for a record \<open>m\<close> that passed the filter.\<close>

definition simplify :: "pyval \<Rightarrow> exception + pyval" where
  "simplify m =
     (case get_method m ''id'' PNone of
        Inl x \<Rightarrow> Inl x
      | Inr i \<Rightarrow>
          (case get_method m ''id'' (PStr ''unknown'') of
             Inl x \<Rightarrow> Inl x
           | Inr d \<Rightarrow>
               (case get_method m ''name'' d of
                  Inl x \<Rightarrow> Inl x
                | Inr n \<Rightarrow>
                    (case get_method m ''context_length'' PNone of
                       Inl x \<Rightarrow> Inl x
                     | Inr c \<Rightarrow>
                         Inr (PDict [(''id'', i), (''name'', n), (''context_length'', c)])))))"

fun simplified_of :: "pyval list \<Rightarrow> exception + pyval list" where
  "simplified_of [] = Inr []"
| "simplified_of (m # ms) =
     (case get_method m ''id'' PNone of
        Inl x \<Rightarrow> Inl x
      | Inr v \<Rightarrow>
          if isinstance_str v then
            (case simplify m of
               Inl x \<Rightarrow> Inl x
             | Inr d \<Rightarrow> (case simplified_of ms of Inl x \<Rightarrow> Inl x | Inr r \<Rightarrow> Inr (d # r)))
          else simplified_of ms)"

definition refresh_cache :: "env \<Rightarrow> world \<Rightarrow> unit outcome" where
  "refresh_cache e w =
     (case fetch_models e w of
        (Inl x, w1) \<Rightarrow> (Inl x, w1)
      | (Inr ms, w1) \<Rightarrow>
          (case ids_of ms of
             Inl x \<Rightarrow> (Inl x, w1)
           | Inr is \<Rightarrow>
               (case simplified_of ms of
                  Inl x \<Rightarrow> (Inl x, w1)
                | Inr simplified \<Rightarrow>
                    (Inr (),
                     w1\<lparr>cache := Some \<lparr>ids = set is, models = simplified\<rparr>,
                        cache_updated_at := stamp e\<rparr>))))"

text \<open>The test \<open>_cache is None or (time.monotonic() - _cache_updated_at) >= CACHE_TTL_SECONDS\<close>.\<close>

definition stale :: "env \<Rightarrow> world \<Rightarrow> bool" where
  "stale e w = (cache w = None \<or> now e - cache_updated_at w \<ge> CACHE_TTL_SECONDS)"

text \<open>
  The body under \<open>with _cache_lock\<close>, for one caller at a time. \<open>_cache["ids"]\<close> after a
  refresh that returned is never a lookup in \<open>None\<close>; the model keeps the case all the same,
  as the \<open>TypeError\<close> Python would raise.
\<close>

definition not_subscriptable :: exception where
  "not_subscriptable =
     Exception ''TypeError''
       ([CHR 0x27] @ ''NoneType'' @ [CHR 0x27] @ '' object is not subscriptable'')"

definition get_cached_model_ids :: "env \<Rightarrow> world \<Rightarrow> string set outcome" where
  "get_cached_model_ids e w =
     (case (if stale e w then refresh_cache e w else (Inr (), w)) of
        (Inl x, w1) \<Rightarrow> (Inl x, w1)
      | (Inr _, w1) \<Rightarrow>
          (case cache w1 of
             None \<Rightarrow> (Inl not_subscriptable, w1)
           | Some c \<Rightarrow> (Inr (ids c), w1)))"

definition get_models_for_ui :: "env \<Rightarrow> world \<Rightarrow> pyval list outcome" where
  "get_models_for_ui e w =
     (case (if stale e w then refresh_cache e w else (Inr (), w)) of
        (Inl x, w1) \<Rightarrow> (Inl x, w1)
      | (Inr _, w1) \<Rightarrow>
          (case cache w1 of
             None \<Rightarrow> (Inl not_subscriptable, w1)
           | Some c \<Rightarrow> (Inr (models c), w1)))"

section \<open>callbacks.py: the selected model\<close>

text \<open>
  \<open>str.isspace\<close> on one code point below U+0100: the ASCII whitespace (tab to carriage
  return, the separators 0x1C to 0x1F, the space), NEL (0x85) and the no-break space
  (0xA0).
\<close>

definition isspace :: "char \<Rightarrow> bool" where
  "isspace c =
     (let n = (of_char c :: nat)
      in (9 \<le> n \<and> n \<le> 13) \<or> (28 \<le> n \<and> n \<le> 32) \<or> n = 133 \<or> n = 160)"

text \<open>\<open>str.strip()\<close>: the whitespace at both ends is removed.\<close>

definition strip :: "string \<Rightarrow> string" where
  "strip s = rev (dropWhile isspace (rev (dropWhile isspace s)))"

text \<open>
  \<open>str.lower()\<close> below U+0100: the letters A to Z, and the Latin-1 capitals 0xC0 to 0xDE
  but for the multiplication sign 0xD7, move up by 0x20.
\<close>

definition lower_char :: "char \<Rightarrow> char" where
  "lower_char c =
     (let n = (of_char c :: nat)
      in if (65 \<le> n \<and> n \<le> 90) \<or> (192 \<le> n \<and> n \<le> 222 \<and> n \<noteq> 215)
         then char_of (n + 32) else c)"

definition lower :: "string \<Rightarrow> string" where
  "lower s = map lower_char s"

definition startswith :: "string \<Rightarrow> string \<Rightarrow> bool" where
  "startswith s p = (take (length p) s = p)"

definition SELECTED_MODEL_STATE_KEY :: string where
  "SELECTED_MODEL_STATE_KEY = ''selectedModel''"

text \<open>
  Of the callback context the selection reads \<open>state.to_dict()\<close> only. Of the request it
  reads and writes the attribute \<open>model\<close>, which holds a \<open>str\<close> or some other object (then
  described by its own \<open>model\<close> attribute, when that is a \<open>str\<close>, and by its \<open>repr\<close>).
  \<open>LlmRequest\<close> is a class of the framework: what an assignment to its \<open>model\<close> raises,
  if anything, is the field \<open>assign_error\<close> (constantly \<open>None\<close> for a plain attribute); an
  assignment that raises leaves the attribute as it was.
\<close>

record callback_context =
  state :: "(string \<times> pyval) list"

datatype model_value = ModelStr string | ModelObject "string option" string

record llm_request =
  model :: model_value
  assign_error :: "string \<Rightarrow> exception option"

definition read_selected_model_from_state :: "callback_context \<Rightarrow> string option" where
  "read_selected_model_from_state ctx =
     (case dict_get (state ctx) SELECTED_MODEL_STATE_KEY PNone of
        PStr selected_model \<Rightarrow>
          (let normalized_selected_model = strip selected_model
           in if normalized_selected_model = [] then None
              else Some normalized_selected_model)
      | _ \<Rightarrow> None)"

text \<open>The local \<open>model_for_request\<close> of \<open>_apply_selected_model_to_request\<close>.\<close>

definition model_for_request :: "string \<Rightarrow> string" where
  "model_for_request selected_model =
     (if \<not> startswith (lower selected_model) ''openrouter/''
      then ''openrouter/'' @ selected_model else selected_model)"

definition apply_selected_model_to_request ::
    "llm_request \<Rightarrow> string \<Rightarrow> exception + llm_request" where
  "apply_selected_model_to_request llm_request selected_model =
     (case assign_error llm_request (model_for_request selected_model) of
        Some x \<Rightarrow> Inl x
      | None \<Rightarrow> Inr (llm_request\<lparr>model := ModelStr (model_for_request selected_model)\<rparr>))"

fun format_model_for_log :: "model_value \<Rightarrow> string" where
  "format_model_for_log (ModelStr s) = s"
| "format_model_for_log (ModelObject (Some lite_llm_model_name) r) = lite_llm_model_name"
| "format_model_for_log (ModelObject None r) = r"

definition get_allowed_model_ids :: "env \<Rightarrow> world \<Rightarrow> string set outcome" where
  "get_allowed_model_ids e w = get_cached_model_ids e w"

text \<open>
  \<open>before_model\<close> from the read of the selected model to the end of its \<open>try\<close>. The log
  lines before and after (agent name, invocation id, state keys, user content, message
  contents) read the context and the request's contents only and are left out. The
  result is the value returned or the exception raised, the request and the world.
\<close>

definition before_model ::
    "callback_context \<Rightarrow> env \<Rightarrow> llm_request \<Rightarrow> world
       \<Rightarrow> (exception + unit) \<times> llm_request \<times> world" where
  "before_model ctx e llm_request w =
     (case read_selected_model_from_state ctx of
        None \<Rightarrow>
          (Inr (), llm_request,
           emit Info ''No selected model in state; using request model: %s''
             [format_model_for_log (model llm_request)] w)
      | Some selected_model \<Rightarrow>
          (case get_allowed_model_ids e w of
             (Inl x, w1) \<Rightarrow> (Inl x, llm_request, w1)
           | (Inr allowed_ids, w1) \<Rightarrow>
               (let in_list = selected_model \<in> allowed_ids;
                    is_allowed =
                      (if \<not> in_list \<and> allowed_ids = {}
                       then CHR ''/'' \<in> set selected_model else in_list);
                    w2 =
                      (if \<not> in_list \<and> allowed_ids = {} \<and> is_allowed
                       then emit Info
                              ''Model list unavailable; allowing provider-prefixed model: %s''
                              [selected_model] w1
                       else w1)
                in if \<not> is_allowed then
                     (Inr (), llm_request,
                      emit Warning
                        (''Selected model '' @ [CHR 0x27] @ ''%s'' @ [CHR 0x27]
                           @ '' not in allowed list; using default model'')
                        [selected_model] w2)
                   else
                     (let w3 = emit Info ''Requested model from state: %s''
                                 [selected_model] w2
                      in case apply_selected_model_to_request llm_request selected_model of
                           Inr r \<Rightarrow>
                             (Inr (), r,
                              emit Info ''Applied model for this request: %s''
                                [format_model_for_log (model r)] w3)
                         | Inl x \<Rightarrow>
                             (Inr (), llm_request,
                              emit Warning
                                (''Failed to apply selected model '' @ [CHR 0x27] @ ''%s''
                                   @ [CHR 0x27] @ '': %s: %s'')
                                [selected_model, exc_name x, exc_str x] w3)))))"

text \<open>
  The worlds the module can be in: the one at import, and the one any call of the three
  entry points leaves.
\<close>

inductive reachable :: "world \<Rightarrow> bool" where
  reachable_initial: "reachable initial_world"
| reachable_ids: "reachable w \<Longrightarrow> reachable (snd (get_cached_model_ids e w))"
| reachable_ui: "reachable w \<Longrightarrow> reachable (snd (get_models_for_ui e w))"
| reachable_before_model:
    "reachable w \<Longrightarrow> reachable (snd (snd (before_model ctx e llm_request w)))"

section \<open>Consistency of a snapshot\<close>

text \<open>
  A snapshot is consistent when the strings of its id set are exactly the \<open>"id"\<close> entries
  of its listing.
\<close>

definition snapshot_consistent :: "snapshot \<Rightarrow> bool" where
  "snapshot_consistent c =
     ((\<lambda>s. Inr (PStr s)) ` ids c = (\<lambda>m. get_method m ''id'' PNone) ` set (models c))"

definition cache_consistent :: "world \<Rightarrow> bool" where
  "cache_consistent w = (case cache w of None \<Rightarrow> True | Some c \<Rightarrow> snapshot_consistent c)"

section \<open>Fetch outcomes that are well formed\<close>

text \<open>
  The outcomes of a fetch that the code expects: no credential or an empty one, an
  exception of the request or of the parse, or a JSON object whose \<open>"data"\<close> is either not
  a list or a list of JSON objects.
\<close>

fun is_object :: "pyval \<Rightarrow> bool" where
  "is_object (PDict _) = True"
| "is_object _ = False"

definition well_formed :: "env \<Rightarrow> bool" where
  "well_formed e =
     (case api_key e of
        None \<Rightarrow> True
      | Some k \<Rightarrow>
          k = [] \<or>
          (case response e of
             Raised x \<Rightarrow> True
           | Parsed (PDict d) \<Rightarrow>
               (case dict_get d ''data'' PNone of
                  PList ms \<Rightarrow> list_all is_object ms
                | _ \<Rightarrow> True)
           | Parsed _ \<Rightarrow> False))"

section \<open>Callers under the lock\<close>

text \<open>
  Both functions run their whole body under \<open>with _cache_lock\<close>, so the callers that
  contend for the lock run their bodies one after the other, in the order in which they
  get it. A caller is the function it calls and what its surroundings answer while it
  holds the lock; \<open>serialized\<close> is the world that a list of callers leaves, the first
  holder of the lock first.
\<close>

datatype caller = CallIds (caller_env: env) | CallListing (caller_env: env)

definition call_world :: "caller \<Rightarrow> world \<Rightarrow> world" where
  "call_world c w =
     (case c of
        CallIds e \<Rightarrow> snd (get_cached_model_ids e w)
      | CallListing e \<Rightarrow> snd (get_models_for_ui e w))"

definition serialized :: "caller list \<Rightarrow> world \<Rightarrow> world" where
  "serialized cs w = foldl (\<lambda>v c. call_world c v) w cs"

section \<open>Example inputs\<close>

text \<open>
  A catalogue of two raw records, one with a string id and one without; the world the
  first call leaves from it; a later call, half a minute on, during an outage.
\<close>

definition catalog_env :: env where
  "catalog_env =
     \<lparr>api_key = Some ''sk-or-1'',
      response = Parsed (PDict [(''data'',
        PList [PDict [(''id'', PStr ''vendor/model-x''), (''context_length'', PInt 4096)],
               PDict [(''id'', PInt 7), (''name'', PStr ''no string id'')]])]),
      now = 0, stamp = 1\<rparr>"

definition catalog_world :: world where
  "catalog_world =
     \<lparr>cache = Some \<lparr>ids = {''vendor/model-x''},
                     models = [PDict [(''id'', PStr ''vendor/model-x''),
                                      (''name'', PStr ''vendor/model-x''),
                                      (''context_length'', PInt 4096)]]\<rparr>,
      cache_updated_at = 1, fetch_calls = 1, log = []\<rparr>"

definition later_env :: env where
  "later_env =
     \<lparr>api_key = Some ''sk-or-1'', response = Raised (Exception ''URLError'' ''timed out''),
      now = 30, stamp = 45\<rparr>"

text \<open>No credential: the fetch is empty, and so is the snapshot.\<close>

definition no_key_env :: env where
  "no_key_env =
     \<lparr>api_key = None, response = Raised (Exception ''URLError'' ''unreachable''),
      now = 0, stamp = 1\<rparr>"

definition no_key_world :: world where
  "no_key_world =
     \<lparr>cache = Some \<lparr>ids = {}, models = []\<rparr>, cache_updated_at = 1, fetch_calls = 1,
      log = [(Warning, ''OPENROUTER_API_KEY not set; cannot fetch models'', [])]\<rparr>"

text \<open>Two well-formed JSON bodies that are not a catalogue: \<open>[]\<close> and \<open>{"data": [1]}\<close>.\<close>

definition list_payload_env :: env where
  "list_payload_env =
     \<lparr>api_key = Some ''sk-or-1'', response = Parsed (PList []), now = 0, stamp = 1\<rparr>"

definition scalar_record_env :: env where
  "scalar_record_env =
     \<lparr>api_key = Some ''sk-or-1'',
      response = Parsed (PDict [(''data'', PList [PInt 1])]), now = 0, stamp = 1\<rparr>"

text \<open>A state that holds one value under the key, and two requests.\<close>

definition selecting :: "pyval \<Rightarrow> callback_context" where
  "selecting v = \<lparr>state = [(''selectedModel'', v)]\<rparr>"

definition plain_request :: llm_request where
  "plain_request = \<lparr>model = ModelStr ''gemini-2.5-flash'', assign_error = (\<lambda>_. None)\<rparr>"

definition frozen_request :: llm_request where
  "frozen_request =
     \<lparr>model = ModelStr ''gemini-2.5-flash'',
      assign_error = (\<lambda>_. Some (Exception ''ValidationError'' ''Instance is frozen''))\<rparr>"

section \<open>The cache: what a call does to the world\<close>

lemma fetch_models_counts: "fetch_calls (snd (fetch_models e w)) = Suc (fetch_calls w)"
  by (simp add: fetch_models_def emit_def Let_def
        split: option.split http_outcome.split sum.split pyval.split)

lemma fetch_models_keeps_cache:
  "cache (snd (fetch_models e w)) = cache w
   \<and> cache_updated_at (snd (fetch_models e w)) = cache_updated_at w"
  by (simp add: fetch_models_def emit_def Let_def
        split: option.split http_outcome.split sum.split pyval.split)

lemma refresh_cache_counts: "fetch_calls (snd (refresh_cache e w)) = Suc (fetch_calls w)"
  using fetch_models_counts [of e w]
  by (auto simp add: refresh_cache_def split: prod.splits sum.splits)

lemma refresh_cache_Inr:
  "refresh_cache e w = (Inr u, w1) \<Longrightarrow>
     \<exists>ms is ss. fst (fetch_models e w) = Inr ms \<and> ids_of ms = Inr is
       \<and> simplified_of ms = Inr ss
       \<and> cache w1 = Some \<lparr>ids = set is, models = ss\<rparr> \<and> cache_updated_at w1 = stamp e"
  by (auto simp add: refresh_cache_def split: prod.splits sum.splits)

lemma refresh_cache_Inl:
  "refresh_cache e w = (Inl x, w1) \<Longrightarrow>
     cache w1 = cache w \<and> cache_updated_at w1 = cache_updated_at w"
  using fetch_models_keeps_cache [of e w]
  by (auto simp add: refresh_cache_def split: prod.splits sum.splits)

lemma ids_world:
  "snd (get_cached_model_ids e w)
     = snd (if stale e w then refresh_cache e w else (Inr (), w))"
  by (simp add: get_cached_model_ids_def split: prod.split sum.split option.split)

lemma ui_world:
  "snd (get_models_for_ui e w)
     = snd (if stale e w then refresh_cache e w else (Inr (), w))"
  by (simp add: get_models_for_ui_def split: prod.split sum.split option.split)

lemma ids_returns:
  "get_cached_model_ids e w = (Inr r, w1) \<Longrightarrow> \<exists>c. cache w1 = Some c \<and> r = ids c"
  by (auto simp add: get_cached_model_ids_def
        split: prod.splits sum.splits option.splits if_splits)

lemma ui_returns:
  "get_models_for_ui e w = (Inr r, w1) \<Longrightarrow> \<exists>c. cache w1 = Some c \<and> r = models c"
  by (auto simp add: get_models_for_ui_def
        split: prod.splits sum.splits option.splits if_splits)

lemma ids_ui_both_return:
  "get_cached_model_ids e w = (Inr r, w1) \<Longrightarrow> \<exists>l. get_models_for_ui e w = (Inr l, w1)"
  by (auto simp add: get_cached_model_ids_def get_models_for_ui_def
        split: prod.splits sum.splits option.splits if_splits)

lemma ids_hit:
  "cache w = Some c \<Longrightarrow> now e - cache_updated_at w < CACHE_TTL_SECONDS \<Longrightarrow>
     get_cached_model_ids e w = (Inr (ids c), w)"
  by (simp add: get_cached_model_ids_def stale_def)

lemma ui_hit:
  "cache w = Some c \<Longrightarrow> now e - cache_updated_at w < CACHE_TTL_SECONDS \<Longrightarrow>
     get_models_for_ui e w = (Inr (models c), w)"
  by (simp add: get_models_for_ui_def stale_def)

lemma ids_fetch_calls:
  "fetch_calls (snd (get_cached_model_ids e w))
     = (if cache w = None \<or> now e - cache_updated_at w \<ge> CACHE_TTL_SECONDS
        then Suc (fetch_calls w) else fetch_calls w)"
  by (simp add: ids_world refresh_cache_counts stale_def)

subsection \<open>The example calls\<close>

lemma no_key_first_call:
  "get_cached_model_ids no_key_env initial_world = (Inr {}, no_key_world)"
  by (simp add: get_cached_model_ids_def stale_def initial_world_def refresh_cache_def
        fetch_models_def emit_def no_key_env_def no_key_world_def)

lemma catalog_first_call:
  "get_cached_model_ids catalog_env initial_world = (Inr {''vendor/model-x''}, catalog_world)"
  by (simp add: get_cached_model_ids_def stale_def initial_world_def refresh_cache_def
        fetch_models_def simplify_def dict_get_def catalog_env_def catalog_world_def)

lemma catalog_later_call:
  "get_cached_model_ids later_env catalog_world = (Inr {''vendor/model-x''}, catalog_world)"
  by (simp add: get_cached_model_ids_def stale_def later_env_def catalog_world_def
        CACHE_TTL_SECONDS_def)

lemma catalog_later_listing:
  "get_models_for_ui later_env catalog_world
     = (Inr [PDict [(''id'', PStr ''vendor/model-x''), (''name'', PStr ''vendor/model-x''),
                    (''context_length'', PInt 4096)]], catalog_world)"
  by (simp add: get_models_for_ui_def stale_def later_env_def catalog_world_def
        CACHE_TTL_SECONDS_def)

subsection \<open>A payload that is not a catalogue\<close>

text \<open>
  C1 says that \<open>get_cached_model_ids\<close> and \<open>get_models_for_ui\<close> return a result for every
  fetch outcome, a malformed payload of any shape included, and never raise. The code
  reads \<open>data.get("data")\<close> after its \<open>try\<close> and \<open>m.get("id")\<close> in \<open>_refresh_cache\<close>: with
  a credential set and the cache absent, the JSON body \<open>[]\<close> and the JSON body
  \<open>{"data": [1]}\<close> both make the two functions raise \<open>AttributeError\<close>.
\<close>

theorem malformed_payload_raises:
  "fst (get_cached_model_ids list_payload_env initial_world)
     = Inl (AttributeError (PList []) ''get'')
   \<and> fst (get_models_for_ui list_payload_env initial_world)
     = Inl (AttributeError (PList []) ''get'')
   \<and> fst (get_cached_model_ids scalar_record_env initial_world)
     = Inl (AttributeError (PInt 1) ''get'')
   \<and> fst (get_models_for_ui scalar_record_env initial_world)
     = Inl (AttributeError (PInt 1) ''get'')
   \<and> exc_name (AttributeError (PList []) ''get'') = ''AttributeError''
   \<and> cache (snd (get_cached_model_ids list_payload_env initial_world)) = None"
  by (simp add: get_cached_model_ids_def get_models_for_ui_def stale_def initial_world_def
        refresh_cache_def fetch_models_def list_payload_env_def scalar_record_env_def
        AttributeError_def dict_get_def)

subsection \<open>Two calls within the TTL\<close>

text \<open>
  C7: when a call of \<open>get_cached_model_ids\<close> has returned and a second call comes less
  than \<open>CACHE_TTL_SECONDS\<close> after the stamp of the snapshot, the second call returns the
  same set and leaves the world as it is (no fetch, no new stamp); \<open>get_models_for_ui\<close>
  in place of either call behaves the same way on the same world. The first call has
  fetched exactly when there was no snapshot or the one there was \<open>CACHE_TTL_SECONDS\<close>
  old or older, and then the snapshot carries the new stamp; otherwise it has left the
  world as it was. From the world at import the two calls make one fetch.
\<close>

theorem second_call_within_ttl:
  assumes first: "get_cached_model_ids e1 w = (Inr i1, w1)"
    and within: "now e2 - cache_updated_at w1 < CACHE_TTL_SECONDS"
  shows "get_cached_model_ids e2 w1 = (Inr i1, w1)
       \<and> (\<exists>l1. get_models_for_ui e1 w = (Inr l1, w1)
                \<and> get_models_for_ui e2 w1 = (Inr l1, w1))
       \<and> fetch_calls w1
           = (if cache w = None \<or> now e1 - cache_updated_at w \<ge> CACHE_TTL_SECONDS
              then Suc (fetch_calls w) else fetch_calls w)
       \<and> (if cache w = None \<or> now e1 - cache_updated_at w \<ge> CACHE_TTL_SECONDS
          then cache_updated_at w1 = stamp e1 else w1 = w)
       \<and> (w = initial_world \<longrightarrow> fetch_calls w1 = 1)"
proof -
  from ids_returns [OF first] obtain c where c: "cache w1 = Some c" "i1 = ids c" by blast
  from ids_ui_both_return [OF first] obtain l1
    where l1: "get_models_for_ui e1 w = (Inr l1, w1)" by blast
  from ui_returns [OF l1] c have l1c: "l1 = models c" by simp
  have a: "get_cached_model_ids e2 w1 = (Inr i1, w1)"
    using ids_hit [OF c(1) within] c(2) by simp
  have b: "get_models_for_ui e2 w1 = (Inr l1, w1)"
    using ui_hit [OF c(1) within] l1c by simp
  have n: "fetch_calls w1
           = (if cache w = None \<or> now e1 - cache_updated_at w \<ge> CACHE_TTL_SECONDS
              then Suc (fetch_calls w) else fetch_calls w)"
    using ids_fetch_calls [of e1 w] first by simp
  have r: "if cache w = None \<or> now e1 - cache_updated_at w \<ge> CACHE_TTL_SECONDS
          then cache_updated_at w1 = stamp e1 else w1 = w"
    using first refresh_cache_Inr [of e1 w]
    by (auto simp add: get_cached_model_ids_def stale_def
          split: prod.splits sum.splits option.splits if_splits)
  have i: "w = initial_world \<longrightarrow> fetch_calls w1 = 1"
    using n by (simp add: initial_world_def)
  from a l1 b n r i show ?thesis by blast
qed

theorem second_call_within_ttl_witness:
  "get_cached_model_ids catalog_env initial_world = (Inr {''vendor/model-x''}, catalog_world)
   \<and> now later_env - cache_updated_at catalog_world < CACHE_TTL_SECONDS
   \<and> get_cached_model_ids later_env catalog_world = (Inr {''vendor/model-x''}, catalog_world)
   \<and> fetch_calls catalog_world = 1"
proof -
  have h2: "now later_env - cache_updated_at catalog_world < CACHE_TTL_SECONDS"
    by (simp add: CACHE_TTL_SECONDS_def later_env_def catalog_world_def)
  from second_call_within_ttl [OF catalog_first_call h2]
  have "get_cached_model_ids later_env catalog_world = (Inr {''vendor/model-x''}, catalog_world)"
    and "initial_world = initial_world \<longrightarrow> fetch_calls catalog_world = 1"
    by blast+
  with catalog_first_call h2 show ?thesis by blast
qed

subsection \<open>The id set and the listing of one snapshot\<close>

lemma simplify_id:
  "get_method m ''id'' PNone = Inr (PStr s) \<Longrightarrow>
     \<exists>d. simplify m = Inr d \<and> get_method d ''id'' PNone = Inr (PStr s)"
  by (cases m) (simp_all add: simplify_def dict_get_def)

lemma ids_simplified:
  "ids_of ms = Inr is \<Longrightarrow>
     \<exists>ss. simplified_of ms = Inr ss
       \<and> map (\<lambda>d. get_method d ''id'' PNone) ss = map (\<lambda>s. Inr (PStr s)) is"
proof (induction ms arbitrary: "is")
  case Nil
  then show ?case by simp
next
  case (Cons m ms)
  show ?case
  proof (cases "get_method m ''id'' PNone")
    case (Inl x)
    with Cons.prems show ?thesis by simp
  next
    case (Inr v)
    show ?thesis
    proof (cases v)
      case (PStr s)
      with Inr Cons.prems obtain r where r: "ids_of ms = Inr r" "is = s # r"
        by (auto split: sum.splits)
      from Cons.IH [OF r(1)] obtain ss where ss: "simplified_of ms = Inr ss"
        "map (\<lambda>d. get_method d ''id'' PNone) ss = map (\<lambda>s. Inr (PStr s)) r" by blast
      from simplify_id Inr PStr obtain d where d: "simplify m = Inr d"
        "get_method d ''id'' PNone = Inr (PStr s)" by blast
      show ?thesis using Inr PStr ss d r by simp
    qed (use Inr Cons in \<open>auto\<close>)
  qed
qed

text \<open>The strings kept are those of the raw records whose \<open>"id"\<close> is a \<open>str\<close>, in order.\<close>

lemma ids_of_filter:
  "ids_of ms = Inr is \<Longrightarrow>
     map (\<lambda>s. Inr (PStr s)) is
       = filter (\<lambda>v. case v of Inr (PStr _) \<Rightarrow> True | _ \<Rightarrow> False)
           (map (\<lambda>m. get_method m ''id'' PNone) ms)"
proof (induction ms arbitrary: "is")
  case Nil
  then show ?case by simp
next
  case (Cons m ms)
  then show ?case
    by (cases "get_method m ''id'' PNone") (auto split: sum.splits pyval.splits)
qed

lemma refresh_cache_consistent:
  assumes "cache_consistent w"
  shows "cache_consistent (snd (refresh_cache e w))"
proof (cases "refresh_cache e w")
  case (Pair r w1)
  show ?thesis
  proof (cases r)
    case (Inl x)
    with Pair refresh_cache_Inl [of e w x w1] assms show ?thesis
      by (simp add: cache_consistent_def)
  next
    case (Inr u)
    with Pair refresh_cache_Inr [of e w u w1] obtain ms "is" ss where
      h: "ids_of ms = Inr is" "simplified_of ms = Inr ss"
         "cache w1 = Some \<lparr>ids = set is, models = ss\<rparr>" by blast
    from ids_simplified [OF h(1)] h(2)
    have "map (\<lambda>d. get_method d ''id'' PNone) ss = map (\<lambda>s. Inr (PStr s)) is" by simp
    then have "(\<lambda>d. get_method d ''id'' PNone) ` set ss = (\<lambda>s. Inr (PStr s)) ` set is"
      by (metis set_map)
    with h(3) Pair show ?thesis
      by (simp add: cache_consistent_def snapshot_consistent_def)
  qed
qed

lemma ids_consistent:
  "cache_consistent w \<Longrightarrow> cache_consistent (snd (get_cached_model_ids e w))"
  by (simp add: ids_world refresh_cache_consistent)

lemma ui_consistent:
  "cache_consistent w \<Longrightarrow> cache_consistent (snd (get_models_for_ui e w))"
  by (simp add: ui_world refresh_cache_consistent)

lemma emit_cache: "cache (emit l f a w) = cache w"
  by (simp add: emit_def)

lemma emit_log: "log (emit l f a w) = log w @ [(l, f, a)]"
  by (simp add: emit_def)

lemma before_model_cache:
  "cache (snd (snd (before_model ctx e r w))) = cache w
   \<or> cache (snd (snd (before_model ctx e r w))) = cache (snd (get_cached_model_ids e w))"
  by (simp add: before_model_def get_allowed_model_ids_def Let_def emit_cache
        split: option.split prod.split sum.split)

lemma before_model_consistent:
  "cache_consistent w \<Longrightarrow> cache_consistent (snd (snd (before_model ctx e r w)))"
  using before_model_cache [of ctx e r w] ids_consistent [of w e]
  by (auto simp add: cache_consistent_def)

lemma reachable_consistent: "reachable w \<Longrightarrow> cache_consistent w"
proof (induction rule: reachable.induct)
  case reachable_initial
  show ?case by (simp add: cache_consistent_def initial_world_def)
qed (simp_all add: ids_consistent ui_consistent before_model_consistent)

text \<open>
  C10: in every world the module can reach, the set that \<open>get_cached_model_ids\<close> returns
  and the list that \<open>get_models_for_ui\<close> returns from the same snapshot agree: the strings
  of the set are exactly the \<open>"id"\<close> entries of the records of the list, and every record
  of the list has a \<open>str\<close> under \<open>"id"\<close>.
\<close>

theorem snapshot_ids_match_listing:
  assumes "reachable w"
    and "get_cached_model_ids e w = (Inr I, w1)"
    and "get_models_for_ui e' w1 = (Inr L, w2)"
    and "cache w2 = cache w1"
  shows "(\<lambda>s. Inr (PStr s)) ` I = (\<lambda>m. get_method m ''id'' PNone) ` set L"
proof -
  from assms(2) have w1: "w1 = snd (get_cached_model_ids e w)" by simp
  from reachable_consistent [OF assms(1)] have "cache_consistent w1"
    unfolding w1 by (rule ids_consistent)
  moreover from ids_returns [OF assms(2)] obtain c where c: "cache w1 = Some c" "I = ids c"
    by blast
  moreover from ui_returns [OF assms(3)] assms(4) c have "L = models c" by auto
  ultimately show ?thesis
    by (simp add: cache_consistent_def snapshot_consistent_def)
qed

theorem snapshot_ids_match_listing_witness:
  "reachable initial_world
   \<and> get_cached_model_ids catalog_env initial_world = (Inr {''vendor/model-x''}, catalog_world)
   \<and> get_models_for_ui later_env catalog_world
       = (Inr [PDict [(''id'', PStr ''vendor/model-x''), (''name'', PStr ''vendor/model-x''),
                      (''context_length'', PInt 4096)]], catalog_world)
   \<and> (\<lambda>s. Inr (PStr s)) ` {''vendor/model-x''}
       = (\<lambda>m. get_method m ''id'' PNone)
           ` set [PDict [(''id'', PStr ''vendor/model-x''), (''name'', PStr ''vendor/model-x''),
                         (''context_length'', PInt 4096)]]"
  using snapshot_ids_match_listing
          [OF reachable_initial catalog_first_call catalog_later_listing refl]
        reachable_initial catalog_first_call catalog_later_listing
  by blast

subsection \<open>When a call raises\<close>

text \<open>
  A call raises exactly when it has to fetch and the outcome of the fetch is not well
  formed: the JSON value is not an object, or its \<open>"data"\<close> is a list with an element that
  is not an object.
\<close>

lemma ids_of_objects:
  "\<forall>m\<in>set ms. \<exists>d. m = PDict d \<Longrightarrow> \<exists>is. ids_of ms = Inr is"
proof (induction ms)
  case Nil
  then show ?case by simp
next
  case (Cons m ms)
  then obtain d "is" where "m = PDict d" "ids_of ms = Inr is" by auto
  then show ?case by (cases "dict_get d ''id'' PNone") simp_all
qed

lemma ids_of_raises:
  "ids_of ms = Inl x \<Longrightarrow> \<exists>m\<in>set ms. \<forall>d. m \<noteq> PDict d"
  using ids_of_objects [of ms] by (metis Inl_Inr_False)

lemma fetch_models_cases:
  "fst (fetch_models e w) =
     (case api_key e of
        None \<Rightarrow> Inr []
      | Some k \<Rightarrow>
          if k = [] then Inr []
          else (case response e of
                  Raised x \<Rightarrow> Inr []
                | Parsed (PDict d) \<Rightarrow>
                    (case dict_get d ''data'' PNone of PList ms \<Rightarrow> Inr ms | _ \<Rightarrow> Inr [])
                | Parsed v \<Rightarrow> Inl (AttributeError v ''get'')))"
  by (simp add: fetch_models_def Let_def split: option.split http_outcome.split pyval.split)


lemma list_all_objects:
  "list_all is_object ms \<Longrightarrow> \<forall>m\<in>set ms. \<exists>d. m = PDict d"
proof
  fix m
  assume "list_all is_object ms" "m \<in> set ms"
  then have "is_object m" by (simp add: list_all_iff)
  then show "\<exists>d. m = PDict d" by (cases m) simp_all
qed

lemma fetch_models_objects:
  assumes "well_formed e"
  shows "\<exists>ms. fst (fetch_models e w) = Inr ms \<and> (\<forall>m\<in>set ms. \<exists>d. m = PDict d)"
proof (cases "api_key e")
  case None
  then show ?thesis by (simp add: fetch_models_cases)
next
  case (Some k)
  show ?thesis
  proof (cases "k = []")
    case True
    with Some show ?thesis by (simp add: fetch_models_cases)
  next
    case False
    show ?thesis
    proof (cases "response e")
      case (Raised x)
      with Some False show ?thesis by (simp add: fetch_models_cases)
    next
      case (Parsed v)
      show ?thesis
      proof (cases v)
        case (PDict d)
        show ?thesis
        proof (cases "dict_get d ''data'' PNone")
          case (PList ms)
          with assms Some False Parsed PDict
          have "list_all is_object ms"
            by (simp add: well_formed_def)
          from list_all_objects [OF this] Some False Parsed PDict PList show ?thesis
            by (simp add: fetch_models_cases)
        qed (use Some False Parsed PDict in \<open>simp_all add: fetch_models_cases\<close>)
      qed (use assms Some False Parsed in \<open>simp_all add: well_formed_def\<close>)
    qed
  qed
qed

lemma refresh_cache_well_formed:
  assumes "well_formed e"
  shows "\<exists>w1. refresh_cache e w = (Inr (), w1)"
proof -
  from fetch_models_objects [OF assms] obtain ms
    where ms: "fst (fetch_models e w) = Inr ms" "\<forall>m\<in>set ms. \<exists>d. m = PDict d" by blast
  from ids_of_objects [OF ms(2)] obtain "is" where i: "ids_of ms = Inr is" by blast
  from ids_simplified [OF i] obtain ss where "simplified_of ms = Inr ss" by blast
  with ms(1) i show ?thesis
    by (cases "fetch_models e w") (simp add: refresh_cache_def)
qed

lemma returns_when_well_formed:
  assumes "well_formed e"
  shows "\<exists>r w1. get_cached_model_ids e w = (Inr r, w1)"
proof (cases "stale e w")
  case True
  from refresh_cache_well_formed [OF assms] obtain w1 where r: "refresh_cache e w = (Inr (), w1)"
    by blast
  from refresh_cache_Inr [OF r] obtain c where "cache w1 = Some c" by auto
  with True r show ?thesis by (simp add: get_cached_model_ids_def)
next
  case False
  then obtain c where "cache w = Some c" by (auto simp add: stale_def)
  with False show ?thesis by (simp add: get_cached_model_ids_def)
qed


lemma ids_of_non_object:
  "\<not> list_all is_object ms \<Longrightarrow> \<exists>x. ids_of ms = Inl x"
proof (induction ms)
  case Nil
  then show ?case by simp
next
  case (Cons m ms)
  show ?case
  proof (cases m)
    case (PDict d)
    with Cons obtain x where "ids_of ms = Inl x" by auto
    with PDict show ?thesis by (cases "dict_get d ''id'' PNone") simp_all
  qed simp_all
qed



lemma malformed_shape:
  assumes "\<not> well_formed e"
  shows "\<exists>k v. api_key e = Some k \<and> k \<noteq> [] \<and> response e = Parsed v
           \<and> (\<forall>d. v = PDict d \<longrightarrow>
                  (\<exists>ms. dict_get d ''data'' PNone = PList ms \<and> \<not> list_all is_object ms))"
proof (cases "api_key e")
  case None
  with assms show ?thesis by (simp add: well_formed_def)
next
  case (Some k)
  with assms have k: "k \<noteq> []" by (auto simp add: well_formed_def)
  show ?thesis
  proof (cases "response e")
    case (Raised x)
    with assms Some k show ?thesis by (simp add: well_formed_def)
  next
    case (Parsed v)
    have "\<forall>d. v = PDict d \<longrightarrow>
            (\<exists>ms. dict_get d ''data'' PNone = PList ms \<and> \<not> list_all is_object ms)"
    proof (intro allI impI)
      fix d assume v: "v = PDict d"
      show "\<exists>ms. dict_get d ''data'' PNone = PList ms \<and> \<not> list_all is_object ms"
        using assms Some k Parsed v
        by (cases "dict_get d ''data'' PNone") (simp_all add: well_formed_def)
    qed
    with Some k Parsed show ?thesis by simp
  qed
qed


lemma refresh_cache_malformed:
  assumes "\<not> well_formed e"
  shows "\<exists>x w1. refresh_cache e w = (Inl x, w1)"
proof -
  from malformed_shape [OF assms] obtain k v where kv: "api_key e = Some k" "k \<noteq> []"
    "response e = Parsed v"
    and sh: "\<forall>d. v = PDict d \<longrightarrow>
              (\<exists>ms. dict_get d ''data'' PNone = PList ms \<and> \<not> list_all is_object ms)"
    by blast
  obtain res w0 where f: "fetch_models e w = (res, w0)" by (cases "fetch_models e w")
  show ?thesis
  proof (cases "\<exists>d. v = PDict d")
    case True
    then obtain d where d: "v = PDict d" by blast
    with sh obtain ms where ms: "dict_get d ''data'' PNone = PList ms"
      "\<not> list_all is_object ms" by blast
    from ids_of_non_object [OF ms(2)] obtain x where x: "ids_of ms = Inl x" by blast
    from kv d ms(1) have "fst (fetch_models e w) = Inr ms"
      by (simp add: fetch_models_cases)
    with f have "res = Inr ms" by simp
    with f x show ?thesis by (simp add: refresh_cache_def)
  next
    case False
    with kv have "fst (fetch_models e w) = Inl (AttributeError v ''get'')"
      by (cases v) (simp_all add: fetch_models_cases)
    with f have "res = Inl (AttributeError v ''get'')" by simp
    with f show ?thesis by (simp add: refresh_cache_def)
  qed
qed

lemma get_cached_model_ids_raises_iff:
  "(\<exists>x. fst (get_cached_model_ids e w) = Inl x) \<longleftrightarrow> stale e w \<and> \<not> well_formed e"
proof (cases "stale e w")
  case True
  show ?thesis
  proof (cases "well_formed e")
    case wf: True
    from returns_when_well_formed [OF wf, of w] obtain r w1
      where "get_cached_model_ids e w = (Inr r, w1)" by blast
    then have "fst (get_cached_model_ids e w) = Inr r" by simp
    with wf show ?thesis by simp
  next
    case False
    from refresh_cache_malformed [OF False, of w] obtain x w1
      where "refresh_cache e w = (Inl x, w1)" by blast
    with True have "fst (get_cached_model_ids e w) = Inl x"
      by (simp add: get_cached_model_ids_def)
    with True False show ?thesis by blast
  qed
next
  case False
  then obtain c where "cache w = Some c" by (auto simp add: stale_def)
  with False have "fst (get_cached_model_ids e w) = Inr (ids c)"
    by (simp add: get_cached_model_ids_def)
  with False show ?thesis by simp
qed

subsection \<open>Callers in sequence\<close>

lemma call_world_ids: "call_world c w = snd (get_cached_model_ids (caller_env c) w)"
  by (cases c) (simp_all add: call_world_def ids_world ui_world)

lemma serialized_Nil: "serialized [] w = w"
  by (simp add: serialized_def)

lemma serialized_Cons: "serialized (c # cs) w = serialized cs (call_world c w)"
  by (simp add: serialized_def)

lemma call_world_hit:
  "cache w = Some s \<Longrightarrow> now (caller_env c) - cache_updated_at w < CACHE_TTL_SECONDS \<Longrightarrow>
     call_world c w = w"
  by (simp add: call_world_ids ids_hit)

lemma serialized_hits:
  "cache w = Some s \<Longrightarrow>
   \<forall>c\<in>set cs. now (caller_env c) - cache_updated_at w < CACHE_TTL_SECONDS \<Longrightarrow>
     serialized cs w = w"
  by (induction cs) (simp_all add: serialized_Nil serialized_Cons call_world_hit)

text \<open>
  When the cache is expired or absent, the first holder of the lock fetches; when its call
  returns, every caller that gets the lock within the TTL of the new stamp finds the
  snapshot and leaves the world as it is. The callers together have made one fetch.
\<close>

lemma serialized_callers_coalesce:
  assumes expired: "cache w = None \<or> now (caller_env c) - cache_updated_at w \<ge> CACHE_TTL_SECONDS"
    and returned: "fst (get_cached_model_ids (caller_env c) w) = Inr r"
    and fresh: "\<forall>d\<in>set cs. now (caller_env d) - stamp (caller_env c) < CACHE_TTL_SECONDS"
  shows "fetch_calls (serialized (c # cs) w) = Suc (fetch_calls w)
       \<and> serialized (c # cs) w = call_world c w"
proof -
  obtain w1 where w1: "get_cached_model_ids (caller_env c) w = (Inr r, w1)"
    using returned by (cases "get_cached_model_ids (caller_env c) w") simp
  then have cw: "call_world c w = w1" by (simp add: call_world_ids)
  from ids_returns [OF w1] obtain s where s: "cache w1 = Some s" by blast
  from expired have st: "stale (caller_env c) w" by (simp add: stale_def)
  with w1 have "refresh_cache (caller_env c) w = (Inr (), w1)"
    by (auto simp add: get_cached_model_ids_def split: prod.splits sum.splits option.splits)
  from refresh_cache_Inr [OF this] have "cache_updated_at w1 = stamp (caller_env c)" by blast
  with fresh have "\<forall>d\<in>set cs. now (caller_env d) - cache_updated_at w1 < CACHE_TTL_SECONDS"
    by simp
  from serialized_hits [OF s this] have "serialized cs w1 = w1" .
  moreover have "fetch_calls w1 = Suc (fetch_calls w)"
    using ids_fetch_calls [of "caller_env c" w] w1 expired by simp
  ultimately show ?thesis by (simp add: serialized_Cons cw)
qed

text \<open>
  A caller whose fetch raises leaves \<open>_cache\<close> as it was: the assignment comes after the
  fetch and the comprehensions.
\<close>

lemma list_payload_step:
  "cache w = None \<Longrightarrow>
     call_world (CallIds list_payload_env) w = w\<lparr>fetch_calls := Suc (fetch_calls w)\<rparr>
     \<and> call_world (CallListing list_payload_env) w = w\<lparr>fetch_calls := Suc (fetch_calls w)\<rparr>"
  by (simp add: call_world_def get_cached_model_ids_def get_models_for_ui_def stale_def
        refresh_cache_def fetch_models_def list_payload_env_def)

lemma list_payload_callers:
  "cache w = None \<Longrightarrow>
     fetch_calls (serialized (replicate n (CallIds list_payload_env)) w) = fetch_calls w + n
     \<and> cache (serialized (replicate n (CallIds list_payload_env)) w) = None"
proof (induction n arbitrary: w)
  case 0
  then show ?case by (simp add: serialized_Nil)
next
  case (Suc n)
  let ?w = "w\<lparr>fetch_calls := Suc (fetch_calls w)\<rparr>"
  from Suc.prems have "cache ?w = None" by simp
  from Suc.IH [OF this] list_payload_step [OF Suc.prems] show ?case
    by (simp add: serialized_Cons)
qed

text \<open>
  C8 says that N callers that arrive while the cache is expired or absent trigger exactly
  one fetch. With a credential set, no snapshot and the JSON body \<open>[]\<close> as the answer of
  the endpoint, the callers run one after the other under the lock and each of them
  fetches: the fetch raises before \<open>_cache\<close> is assigned, so the next holder of the lock
  finds no snapshot and fetches again. N callers make N fetches, three callers three,
  and the cache is still absent at the end.
\<close>

theorem callers_refetch_after_raise:
  "fetch_calls (serialized (replicate n (CallIds list_payload_env)) initial_world) = n
   \<and> cache (serialized (replicate n (CallIds list_payload_env)) initial_world) = None
   \<and> stale list_payload_env initial_world
   \<and> fetch_calls
       (serialized [CallIds list_payload_env, CallListing list_payload_env,
                    CallIds list_payload_env] initial_world) = 3"
proof -
  have c: "cache initial_world = None" by (simp add: initial_world_def)
  have z: "fetch_calls initial_world = 0" by (simp add: initial_world_def)
  have s: "stale list_payload_env initial_world" by (simp add: stale_def c)
  have t: "fetch_calls
       (serialized [CallIds list_payload_env, CallListing list_payload_env,
                    CallIds list_payload_env] initial_world) = 3"
    by (simp add: serialized_Cons serialized_Nil list_payload_step c z)
  from list_payload_callers [OF c, of n] z s t show ?thesis by simp
qed

section \<open>Strings: \<open>strip\<close> and the provider prefix\<close>

lemma dropWhile_all_iff: "(\<forall>x\<in>set (dropWhile P xs). P x) \<longleftrightarrow> dropWhile P xs = []"
proof
  assume a: "\<forall>x\<in>set (dropWhile P xs). P x"
  show "dropWhile P xs = []"
  proof (rule ccontr)
    assume n: "dropWhile P xs \<noteq> []"
    then have "\<not> P (hd (dropWhile P xs))" by (rule hd_dropWhile)
    moreover from n have "hd (dropWhile P xs) \<in> set (dropWhile P xs)" by simp
    ultimately show False using a by blast
  qed
next
  assume "dropWhile P xs = []"
  then show "\<forall>x\<in>set (dropWhile P xs). P x" by (simp only: set_simps ball_simps)
qed

lemma strip_eq_Nil_iff: "strip s = [] \<longleftrightarrow> (\<forall>c\<in>set s. isspace c)"
  by (simp add: strip_def dropWhile_eq_Nil_conv dropWhile_all_iff)

lemma strip_decomp:
  "s = takeWhile isspace s @ strip s @ rev (takeWhile isspace (rev (dropWhile isspace s)))"
proof -
  have "rev (dropWhile isspace s)
          = takeWhile isspace (rev (dropWhile isspace s))
              @ dropWhile isspace (rev (dropWhile isspace s))"
    by simp
  then have "dropWhile isspace s
          = rev (dropWhile isspace (rev (dropWhile isspace s)))
              @ rev (takeWhile isspace (rev (dropWhile isspace s)))"
    by (metis rev_append rev_rev_ident)
  then have "dropWhile isspace s
          = strip s @ rev (takeWhile isspace (rev (dropWhile isspace s)))"
    by (simp add: strip_def)
  then show ?thesis
    by (metis takeWhile_dropWhile_id)
qed

lemma strip_last: "strip s \<noteq> [] \<Longrightarrow> \<not> isspace (last (strip s))"
  by (simp add: strip_def last_rev hd_dropWhile)

lemma strip_hd:
  assumes "strip s \<noteq> []"
  shows "\<not> isspace (hd (strip s))"
proof -
  let ?d = "dropWhile isspace s"
  have d: "?d = strip s @ rev (takeWhile isspace (rev ?d))"
    using strip_decomp [of s] by (metis same_append_eq takeWhile_dropWhile_id)
  with assms have "?d \<noteq> []" by (metis append_is_Nil_conv)
  then have "\<not> isspace (hd ?d)" by (rule hd_dropWhile)
  moreover from d assms have "hd ?d = hd (strip s)" by (metis hd_append2)
  ultimately show ?thesis by simp
qed

lemma strip_idem: "strip (strip s) = strip s"
proof (cases "strip s = []")
  case True
  have "strip [] = []" by (simp add: strip_def)
  with True show ?thesis by simp
next
  case False
  from strip_hd [OF False] False have a: "dropWhile isspace (strip s) = strip s"
    by (cases "strip s") simp_all
  from strip_last [OF False] False have "dropWhile isspace (rev (strip s)) = rev (strip s)"
    by (cases "rev (strip s)") (simp_all add: last_rev [symmetric] del: last_rev)
  with a show ?thesis by (simp add: strip_def)
qed

lemma lower_prefix: "lower (''openrouter/'' @ s) = ''openrouter/'' @ lower s"
  by (simp add: lower_def lower_char_def)

lemma startswith_append: "startswith (p @ s) p"
  by (simp add: startswith_def)

lemma model_for_request_twice: "model_for_request (model_for_request s) = model_for_request s"
proof (cases "startswith (lower s) ''openrouter/''")
  case True
  then show ?thesis by (simp only: model_for_request_def if_False not_True_eq_False)
next
  case False
  then have "model_for_request s = ''openrouter/'' @ s"
    by (simp only: model_for_request_def if_True not_False_eq_True)
  moreover have "startswith (lower (''openrouter/'' @ s)) ''openrouter/''"
    by (simp only: lower_prefix startswith_append)
  ultimately show ?thesis
    by (simp only: model_for_request_def if_False not_True_eq_False)
qed

lemma model_for_request_examples:
  "model_for_request ''vendor/model-x'' = ''openrouter/vendor/model-x''"
  "model_for_request ''foo'' = ''openrouter/foo''"
  "model_for_request ''openrouter/foo'' = ''openrouter/foo''"
  by (simp_all add: model_for_request_def startswith_def lower_def lower_char_def)

lemma model_for_request_mixed_case: "model_for_request ''OpenRouter/foo'' = ''OpenRouter/foo''"
  by code_simp

text \<open>
  C5: the wire format of a selected id. An id that starts with \<open>openrouter/\<close> once it is
  lowered is left as it is, any other id gets the prefix \<open>openrouter/\<close> once; the result
  always starts with the prefix once lowered, and transforming it again changes nothing.
  So \<open>openrouter/foo\<close> and \<open>OpenRouter/foo\<close> stay and \<open>foo\<close> becomes \<open>openrouter/foo\<close>.
\<close>

theorem model_for_request_idempotent:
  "model_for_request s
     = (if startswith (lower s) ''openrouter/'' then s else ''openrouter/'' @ s)
   \<and> startswith (lower (model_for_request s)) ''openrouter/''
   \<and> model_for_request (model_for_request s) = model_for_request s
   \<and> model_for_request ''openrouter/foo'' = ''openrouter/foo''
   \<and> model_for_request ''OpenRouter/foo'' = ''OpenRouter/foo''
   \<and> model_for_request ''foo'' = ''openrouter/foo''"
proof -
  have a: "model_for_request s
     = (if startswith (lower s) ''openrouter/'' then s else ''openrouter/'' @ s)"
    by (simp add: model_for_request_def)
  have b: "startswith (lower (model_for_request s)) ''openrouter/''"
  proof (cases "startswith (lower s) ''openrouter/''")
    case True
    with a show ?thesis by simp
  next
    case False
    with a have "model_for_request s = ''openrouter/'' @ s" by simp
    then show ?thesis by (simp only: lower_prefix startswith_append)
  qed
  from a b model_for_request_twice [of s] model_for_request_examples(2,3)
    model_for_request_mixed_case
  show ?thesis by blast
qed

section \<open>The selection in \<open>before_model\<close>\<close>

lemma before_model_selected:
  assumes "read_selected_model_from_state ctx = Some s"
    and "get_cached_model_ids e w = (Inr A, w1)"
  shows "before_model ctx e r w =
     (if s \<in> A \<or> (A = {} \<and> CHR ''/'' \<in> set s) then
        (let w3 = emit Info ''Requested model from state: %s'' [s]
                    (if A = {}
                     then emit Info
                            ''Model list unavailable; allowing provider-prefixed model: %s''
                            [s] w1
                     else w1)
         in case apply_selected_model_to_request r s of
              Inr r' \<Rightarrow>
                (Inr (), r',
                 emit Info ''Applied model for this request: %s''
                   [format_model_for_log (model r')] w3)
            | Inl x \<Rightarrow>
                (Inr (), r,
                 emit Warning
                   (''Failed to apply selected model '' @ [CHR 0x27] @ ''%s''
                      @ [CHR 0x27] @ '': %s: %s'')
                   [s, exc_name x, exc_str x] w3))
      else
        (Inr (), r,
         emit Warning
           (''Selected model '' @ [CHR 0x27] @ ''%s'' @ [CHR 0x27]
              @ '' not in allowed list; using default model'')
           [s] w1))"
  using assms
  by (auto simp add: before_model_def get_allowed_model_ids_def Let_def)

text \<open>An exception of the cache leaves \<open>before_model\<close>: the call is outside its \<open>try\<close>.\<close>

lemma before_model_raises:
  assumes "read_selected_model_from_state ctx = Some s"
    and "get_cached_model_ids e w = (Inl x, w1)"
  shows "before_model ctx e r w = (Inl x, r, w1)"
  using assms by (simp add: before_model_def get_allowed_model_ids_def)

lemma read_blank:
  "(\<forall>s. dict_get (state ctx) SELECTED_MODEL_STATE_KEY PNone = PStr s
        \<longrightarrow> (\<forall>c\<in>set s. isspace c))
     \<longleftrightarrow> read_selected_model_from_state ctx = None"
  by (cases "dict_get (state ctx) SELECTED_MODEL_STATE_KEY PNone")
     (simp_all add: read_selected_model_from_state_def Let_def strip_eq_Nil_iff)

lemma read_str:
  "dict_get (state ctx) SELECTED_MODEL_STATE_KEY PNone = PStr raw \<Longrightarrow>
     read_selected_model_from_state ctx = (if strip raw = [] then None else Some (strip raw))"
  by (simp add: read_selected_model_from_state_def Let_def)

lemma read_selecting:
  "read_selected_model_from_state (selecting (PStr ''vendor/model-x'')) = Some ''vendor/model-x''"
  "read_selected_model_from_state (selecting (PStr ''bareid'')) = Some ''bareid''"
  "read_selected_model_from_state (selecting (PStr ''other/model'')) = Some ''other/model''"
  by (simp_all add: read_selected_model_from_state_def selecting_def dict_get_def
        SELECTED_MODEL_STATE_KEY_def strip_def isspace_def)

text \<open>
  C4: when the state has no value under \<open>selectedModel\<close>, or a value that is not a \<open>str\<close>,
  or a \<open>str\<close> of whitespace only (the empty one included), \<open>before_model\<close> returns with
  the request as it was and one info line more in the log; the cache, its stamp and the
  count of fetches are as before, whatever they were.
\<close>

theorem unusable_selection_keeps_request_model:
  assumes "\<forall>s. dict_get (state ctx) SELECTED_MODEL_STATE_KEY PNone = PStr s
             \<longrightarrow> (\<forall>c\<in>set s. isspace c)"
  shows "before_model ctx e r w =
           (Inr (), r,
            emit Info ''No selected model in state; using request model: %s''
              [format_model_for_log (model r)] w)
       \<and> cache (snd (snd (before_model ctx e r w))) = cache w
       \<and> cache_updated_at (snd (snd (before_model ctx e r w))) = cache_updated_at w
       \<and> fetch_calls (snd (snd (before_model ctx e r w))) = fetch_calls w"
proof -
  from assms have "read_selected_model_from_state ctx = None"
    by (simp only: read_blank)
  then show ?thesis
    by (simp add: before_model_def emit_def)
qed

theorem unusable_selection_keeps_request_model_witness:
  "fst (snd (before_model \<lparr>state = []\<rparr> catalog_env plain_request initial_world))
     = plain_request
   \<and> fst (snd (before_model (selecting (PInt 3)) catalog_env plain_request initial_world))
     = plain_request
   \<and> fst (snd (before_model (selecting (PStr ''   '')) catalog_env plain_request initial_world))
     = plain_request
   \<and> fetch_calls
       (snd (snd (before_model (selecting (PStr ''   '')) catalog_env plain_request
                    initial_world))) = 0"
proof -
  have a: "\<forall>s. dict_get (state \<lparr>state = []\<rparr>) SELECTED_MODEL_STATE_KEY PNone = PStr s
             \<longrightarrow> (\<forall>c\<in>set s. isspace c)"
    by (simp add: dict_get_def)
  have b: "\<forall>s. dict_get (state (selecting (PInt 3))) SELECTED_MODEL_STATE_KEY PNone = PStr s
             \<longrightarrow> (\<forall>c\<in>set s. isspace c)"
    by (simp add: dict_get_def selecting_def SELECTED_MODEL_STATE_KEY_def)
  have c: "\<forall>s. dict_get (state (selecting (PStr ''   ''))) SELECTED_MODEL_STATE_KEY PNone = PStr s
             \<longrightarrow> (\<forall>c\<in>set s. isspace c)"
    by (simp add: dict_get_def selecting_def SELECTED_MODEL_STATE_KEY_def isspace_def)
  have z: "fetch_calls initial_world = 0"
    by (simp add: initial_world_def)
  from unusable_selection_keeps_request_model [OF a, of catalog_env plain_request initial_world]
  have a': "fst (snd (before_model \<lparr>state = []\<rparr> catalog_env plain_request initial_world))
     = plain_request" by simp
  from unusable_selection_keeps_request_model [OF b, of catalog_env plain_request initial_world]
  have b': "fst (snd (before_model (selecting (PInt 3)) catalog_env plain_request initial_world))
     = plain_request" by simp
  from unusable_selection_keeps_request_model [OF c, of catalog_env plain_request initial_world]
  have c': "fst (snd (before_model (selecting (PStr ''   '')) catalog_env plain_request
                        initial_world)) = plain_request"
    and "fetch_calls (snd (snd (before_model (selecting (PStr ''   '')) catalog_env
                                  plain_request initial_world))) = fetch_calls initial_world"
    by (simp_all add: emit_def)
  with a' b' z show ?thesis by simp
qed

text \<open>
  C2: with a selected id \<open>s\<close> read from the state and an empty set from the cache,
  \<open>before_model\<close> returns; it applies \<open>s\<close> exactly when \<open>s\<close> contains \<open>/\<close>: then the
  request's model becomes the wire form of \<open>s\<close> (unless the assignment itself raises,
  which leaves the request as it was), and otherwise the request keeps its model and the
  log gets the warning of a rejection.
\<close>

theorem empty_allow_list_accepts_qualified_ids:
  assumes "read_selected_model_from_state ctx = Some s"
    and "get_cached_model_ids e w = (Inr {}, w1)"
  shows "fst (before_model ctx e r w) = Inr ()
       \<and> fst (snd (before_model ctx e r w))
           = (if CHR ''/'' \<in> set s
              then (case assign_error r (model_for_request s) of
                      None \<Rightarrow> r\<lparr>model := ModelStr (model_for_request s)\<rparr>
                    | Some x \<Rightarrow> r)
              else r)
       \<and> log (snd (snd (before_model ctx e r w)))
           = log w1 @
             (if CHR ''/'' \<in> set s
              then [(Info, ''Model list unavailable; allowing provider-prefixed model: %s'', [s]),
                    (Info, ''Requested model from state: %s'', [s]),
                    (case assign_error r (model_for_request s) of
                       None \<Rightarrow> (Info, ''Applied model for this request: %s'',
                                 [model_for_request s])
                     | Some x \<Rightarrow>
                         (Warning,
                          ''Failed to apply selected model '' @ [CHR 0x27] @ ''%s''
                            @ [CHR 0x27] @ '': %s: %s'',
                          [s, exc_name x, exc_str x]))]
              else [(Warning,
                     ''Selected model '' @ [CHR 0x27] @ ''%s'' @ [CHR 0x27]
                       @ '' not in allowed list; using default model'',
                     [s])])"
  by (simp add: before_model_selected [OF assms] apply_selected_model_to_request_def
        emit_log Let_def split: option.split)

theorem empty_allow_list_accepts_qualified_ids_witness:
  "read_selected_model_from_state (selecting (PStr ''vendor/model-x'')) = Some ''vendor/model-x''
   \<and> read_selected_model_from_state (selecting (PStr ''bareid'')) = Some ''bareid''
   \<and> get_cached_model_ids no_key_env initial_world = (Inr {}, no_key_world)
   \<and> model (fst (snd (before_model (selecting (PStr ''vendor/model-x'')) no_key_env
                        plain_request initial_world)))
       = ModelStr ''openrouter/vendor/model-x''
   \<and> model (fst (snd (before_model (selecting (PStr ''bareid'')) no_key_env
                        plain_request initial_world)))
       = ModelStr ''gemini-2.5-flash''"
proof -
  have "model (fst (snd (before_model (selecting (PStr ''vendor/model-x'')) no_key_env
                        plain_request initial_world)))
       = ModelStr ''openrouter/vendor/model-x''"
    using empty_allow_list_accepts_qualified_ids
            [OF read_selecting(1) no_key_first_call, of plain_request]
    by (simp add: plain_request_def model_for_request_examples(1))
  moreover have "model (fst (snd (before_model (selecting (PStr ''bareid'')) no_key_env
                        plain_request initial_world)))
       = ModelStr ''gemini-2.5-flash''"
    using empty_allow_list_accepts_qualified_ids
            [OF read_selecting(2) no_key_first_call, of plain_request]
    by (simp add: plain_request_def)
  ultimately show ?thesis
    using read_selecting(1,2) no_key_first_call by blast
qed

text \<open>
  C3: with a selected id \<open>s\<close> read from the state and a set from the cache that is not
  empty, \<open>before_model\<close> returns. When \<open>s\<close> is in the set, the log says that the model is
  the requested one and the request's model becomes the wire form of \<open>s\<close> (unless the
  assignment itself raises, which leaves the request as it was). When \<open>s\<close> is not in the
  set, the request keeps its model and the log gets one warning.
\<close>

theorem allow_list_membership_decides:
  assumes "read_selected_model_from_state ctx = Some s"
    and "get_cached_model_ids e w = (Inr A, w1)"
    and "A \<noteq> {}"
  shows "fst (before_model ctx e r w) = Inr ()
       \<and> fst (snd (before_model ctx e r w))
           = (if s \<in> A
              then (case assign_error r (model_for_request s) of
                      None \<Rightarrow> r\<lparr>model := ModelStr (model_for_request s)\<rparr>
                    | Some x \<Rightarrow> r)
              else r)
       \<and> log (snd (snd (before_model ctx e r w)))
           = log w1 @
             (if s \<in> A
              then [(Info, ''Requested model from state: %s'', [s]),
                    (case assign_error r (model_for_request s) of
                       None \<Rightarrow> (Info, ''Applied model for this request: %s'',
                                 [model_for_request s])
                     | Some x \<Rightarrow>
                         (Warning,
                          ''Failed to apply selected model '' @ [CHR 0x27] @ ''%s''
                            @ [CHR 0x27] @ '': %s: %s'',
                          [s, exc_name x, exc_str x]))]
              else [(Warning,
                     ''Selected model '' @ [CHR 0x27] @ ''%s'' @ [CHR 0x27]
                       @ '' not in allowed list; using default model'',
                     [s])])"
  using assms(3)
  by (simp add: before_model_selected [OF assms(1,2)] apply_selected_model_to_request_def
        emit_log Let_def split: option.split)

theorem allow_list_membership_decides_witness:
  "read_selected_model_from_state (selecting (PStr ''vendor/model-x'')) = Some ''vendor/model-x''
   \<and> read_selected_model_from_state (selecting (PStr ''other/model'')) = Some ''other/model''
   \<and> get_cached_model_ids later_env catalog_world = (Inr {''vendor/model-x''}, catalog_world)
   \<and> model (fst (snd (before_model (selecting (PStr ''vendor/model-x'')) later_env
                        plain_request catalog_world)))
       = ModelStr ''openrouter/vendor/model-x''
   \<and> model (fst (snd (before_model (selecting (PStr ''other/model'')) later_env
                        plain_request catalog_world)))
       = ModelStr ''gemini-2.5-flash''
   \<and> map fst (log (snd (snd (before_model (selecting (PStr ''other/model'')) later_env
                                plain_request catalog_world))))
       = [Warning]"
proof -
  have ne: "{''vendor/model-x''} \<noteq> ({} :: string set)" by simp
  have "model (fst (snd (before_model (selecting (PStr ''vendor/model-x'')) later_env
                        plain_request catalog_world)))
       = ModelStr ''openrouter/vendor/model-x''"
    using allow_list_membership_decides
            [OF read_selecting(1) catalog_later_call ne, of plain_request]
    by (simp add: plain_request_def model_for_request_examples(1))
  moreover have "model (fst (snd (before_model (selecting (PStr ''other/model'')) later_env
                        plain_request catalog_world)))
       = ModelStr ''gemini-2.5-flash''
     \<and> map fst (log (snd (snd (before_model (selecting (PStr ''other/model'')) later_env
                                plain_request catalog_world))))
       = [Warning]"
    using allow_list_membership_decides
            [OF read_selecting(3) catalog_later_call ne, of plain_request]
    by (simp add: plain_request_def catalog_world_def)
  ultimately show ?thesis
    using read_selecting(1,3) catalog_later_call by blast
qed

text \<open>
  C6: when the selected id \<open>s\<close> has been accepted and applying it to the request raises
  \<open>x\<close>, \<open>before_model\<close> returns all the same, the request is as it was, and the last line
  of the log is the warning that names \<open>s\<close> and \<open>x\<close>.
\<close>

theorem failed_assignment_is_swallowed:
  assumes "read_selected_model_from_state ctx = Some s"
    and "get_allowed_model_ids e w = (Inr A, w1)"
    and "s \<in> A \<or> (A = {} \<and> CHR ''/'' \<in> set s)"
    and "apply_selected_model_to_request r s = Inl x"
  shows "fst (before_model ctx e r w) = Inr ()
       \<and> fst (snd (before_model ctx e r w)) = r
       \<and> last (log (snd (snd (before_model ctx e r w))))
           = (Warning,
              ''Failed to apply selected model '' @ [CHR 0x27] @ ''%s''
                @ [CHR 0x27] @ '': %s: %s'',
              [s, exc_name x, exc_str x])"
proof -
  from assms(2) have ids: "get_cached_model_ids e w = (Inr A, w1)"
    by (simp add: get_allowed_model_ids_def)
  show ?thesis
    using assms(3,4)
    by (simp add: before_model_selected [OF assms(1) ids] emit_log Let_def)
qed

theorem failed_assignment_is_swallowed_witness:
  "read_selected_model_from_state (selecting (PStr ''vendor/model-x'')) = Some ''vendor/model-x''
   \<and> get_allowed_model_ids later_env catalog_world = (Inr {''vendor/model-x''}, catalog_world)
   \<and> apply_selected_model_to_request frozen_request ''vendor/model-x''
       = Inl (Exception ''ValidationError'' ''Instance is frozen'')
   \<and> fst (before_model (selecting (PStr ''vendor/model-x'')) later_env frozen_request
            catalog_world) = Inr ()
   \<and> fst (snd (before_model (selecting (PStr ''vendor/model-x'')) later_env frozen_request
                 catalog_world)) = frozen_request
   \<and> fst (last (log (snd (snd (before_model (selecting (PStr ''vendor/model-x'')) later_env
                                  frozen_request catalog_world))))) = Warning"
proof -
  have a: "get_allowed_model_ids later_env catalog_world
             = (Inr {''vendor/model-x''}, catalog_world)"
    by (simp add: get_allowed_model_ids_def catalog_later_call)
  have m: "''vendor/model-x'' \<in> {''vendor/model-x''}
             \<or> ({''vendor/model-x''} = {} \<and> CHR ''/'' \<in> set ''vendor/model-x'')"
    by simp
  have f: "apply_selected_model_to_request frozen_request ''vendor/model-x''
             = Inl (Exception ''ValidationError'' ''Instance is frozen'')"
    by (simp add: apply_selected_model_to_request_def frozen_request_def)
  from failed_assignment_is_swallowed [OF read_selecting(1) a m f]
  have "fst (before_model (selecting (PStr ''vendor/model-x'')) later_env frozen_request
            catalog_world) = Inr ()"
    and "fst (snd (before_model (selecting (PStr ''vendor/model-x'')) later_env frozen_request
                 catalog_world)) = frozen_request"
    and "fst (last (log (snd (snd (before_model (selecting (PStr ''vendor/model-x'')) later_env
                                  frozen_request catalog_world))))) = Warning"
    by simp_all
  with read_selecting(1) a f show ?thesis by blast
qed

text \<open>
  C9: a \<open>str\<close> under \<open>selectedModel\<close> is used in its stripped form only. The value read is
  the stripped one, which is the raw one without the whitespace at its two ends and
  neither begins nor ends with whitespace; the stripped value is the one looked up in the
  set of the cache and tested for \<open>/\<close>, and its wire form is what the request's model
  becomes when it is accepted and the assignment does not raise; the whole call does what
  it does for a state that holds the stripped value.
\<close>

theorem selection_is_stripped_before_use:
  assumes "dict_get (state ctx) SELECTED_MODEL_STATE_KEY PNone = PStr raw"
    and "strip raw \<noteq> []"
    and "get_cached_model_ids e w = (Inr A, w1)"
  shows "read_selected_model_from_state ctx = Some (strip raw)
       \<and> raw = takeWhile isspace raw @ strip raw
                 @ rev (takeWhile isspace (rev (dropWhile isspace raw)))
       \<and> \<not> isspace (hd (strip raw)) \<and> \<not> isspace (last (strip raw))
       \<and> fst (snd (before_model ctx e r w))
           = (if (strip raw \<in> A \<or> (A = {} \<and> CHR ''/'' \<in> set (strip raw)))
                 \<and> assign_error r (model_for_request (strip raw)) = None
              then r\<lparr>model := ModelStr (model_for_request (strip raw))\<rparr>
              else r)
       \<and> before_model ctx e r w
           = before_model (ctx\<lparr>state := [(SELECTED_MODEL_STATE_KEY, PStr (strip raw))]\<rparr>) e r w"
proof -
  have rd: "read_selected_model_from_state ctx = Some (strip raw)"
    using read_str [OF assms(1)] assms(2) by simp
  have rd': "read_selected_model_from_state
               (ctx\<lparr>state := [(SELECTED_MODEL_STATE_KEY, PStr (strip raw))]\<rparr>)
             = Some (strip raw)"
    using assms(2)
    by (simp add: read_selected_model_from_state_def dict_get_def strip_idem)
  have m: "fst (snd (before_model ctx e r w))
           = (if (strip raw \<in> A \<or> (A = {} \<and> CHR ''/'' \<in> set (strip raw)))
                 \<and> assign_error r (model_for_request (strip raw)) = None
              then r\<lparr>model := ModelStr (model_for_request (strip raw))\<rparr>
              else r)"
    by (simp add: before_model_selected [OF rd assms(3)] apply_selected_model_to_request_def
          Let_def split: option.split)
  have eq: "before_model ctx e r w
           = before_model (ctx\<lparr>state := [(SELECTED_MODEL_STATE_KEY, PStr (strip raw))]\<rparr>) e r w"
    by (simp add: before_model_def rd rd')
  from rd strip_decomp [of raw] strip_hd [OF assms(2)] strip_last [OF assms(2)] m eq
  show ?thesis by blast
qed

theorem selection_is_stripped_before_use_witness:
  "dict_get (state (selecting (PStr ''  vendor/model-x  ''))) SELECTED_MODEL_STATE_KEY PNone
     = PStr ''  vendor/model-x  ''
   \<and> strip ''  vendor/model-x  '' = ''vendor/model-x''
   \<and> get_cached_model_ids later_env catalog_world = (Inr {''vendor/model-x''}, catalog_world)
   \<and> read_selected_model_from_state (selecting (PStr ''  vendor/model-x  ''))
       = Some ''vendor/model-x''
   \<and> model (fst (snd (before_model (selecting (PStr ''  vendor/model-x  '')) later_env
                        plain_request catalog_world)))
       = ModelStr ''openrouter/vendor/model-x''"
proof -
  have g: "dict_get (state (selecting (PStr ''  vendor/model-x  ''))) SELECTED_MODEL_STATE_KEY
             PNone = PStr ''  vendor/model-x  ''"
    by (simp add: dict_get_def selecting_def SELECTED_MODEL_STATE_KEY_def)
  have s: "strip ''  vendor/model-x  '' = ''vendor/model-x''"
    by (simp add: strip_def isspace_def)
  then have n: "strip ''  vendor/model-x  '' \<noteq> []" by simp
  from selection_is_stripped_before_use [OF g n catalog_later_call, of plain_request]
  have "read_selected_model_from_state (selecting (PStr ''  vendor/model-x  ''))
          = Some (strip ''  vendor/model-x  '')"
    and "fst (snd (before_model (selecting (PStr ''  vendor/model-x  '')) later_env
                     plain_request catalog_world))
          = (if (strip ''  vendor/model-x  '' \<in> {''vendor/model-x''}
                 \<or> ({''vendor/model-x''} = {}
                     \<and> CHR ''/'' \<in> set (strip ''  vendor/model-x  '')))
                \<and> assign_error plain_request
                     (model_for_request (strip ''  vendor/model-x  '')) = None
             then plain_request
                    \<lparr>model := ModelStr (model_for_request (strip ''  vendor/model-x  ''))\<rparr>
             else plain_request)"
    by blast+
  then have "read_selected_model_from_state (selecting (PStr ''  vendor/model-x  ''))
          = Some ''vendor/model-x''"
    and "model (fst (snd (before_model (selecting (PStr ''  vendor/model-x  '')) later_env
                        plain_request catalog_world)))
       = ModelStr ''openrouter/vendor/model-x''"
    by (simp_all add: s plain_request_def model_for_request_examples(1))
  with g s catalog_later_call show ?thesis by blast
qed

end
